theory Spec2Isabelle
  imports Main
begin

section \<open>Virtual nodes and the render functions of the two components\<close>

text \<open>
  A virtual node as the compiled templates build it: the element type, the attribute
  object (absent when \<^verbatim>\<open>createElementBlock\<close> gets one argument) and the children.
\<close>

datatype vnode = VNode (vtype: string) (vprops: "(string \<times> string) list option") (vchildren: "vnode list")

text \<open>
  Modelled from the spec: \<^verbatim>\<open>openBlock\<close> and \<^verbatim>\<open>createElementBlock\<close> are imported from
  the \<^verbatim>\<open>vue\<close> package, whose code is not part of this repository. The spec describes a
  render as a pure operation that produces exactly one static markup node, so
  \<^verbatim>\<open>createElementBlock\<close> is the constructor of that node (element type, attributes, no
  children) and \<^verbatim>\<open>openBlock\<close> has no result that is used.
\<close>

definition openBlock :: "unit \<Rightarrow> unit" where
  "openBlock u = ()"

definition createElementBlock :: "string \<Rightarrow> (string \<times> string) list option \<Rightarrow> vnode" where
  "createElementBlock type props = VNode type props []"

text \<open>\<^verbatim>\<open>const _hoisted_1 = { type: "text" }\<close>\<close>

definition hoisted_1 :: "(string \<times> string) list" where
  "hoisted_1 = [(''type'', ''text'')]"

text \<open>
  \<^verbatim>\<open>function render$1(_ctx, _cache, $props, $setup, $data, $options)\<close>: the six
  arguments are values of the host framework, of a type \<open>'a\<close> left open. The body is the
  comma expression \<^verbatim>\<open>(openBlock(), createElementBlock("input", _hoisted_1))\<close>.
\<close>

definition render_1 :: "'a \<Rightarrow> 'a \<Rightarrow> 'a \<Rightarrow> 'a \<Rightarrow> 'a \<Rightarrow> 'a \<Rightarrow> vnode" where
  "render_1 ctx cache props setup data options =
     (let u = openBlock () in createElementBlock ''input'' (Some hoisted_1))"

text \<open>
  \<^verbatim>\<open>function render(...)\<close> of InputTextarea, with body
  \<^verbatim>\<open>(openBlock(), createElementBlock("textarea"))\<close>. It is named \<open>render_0\<close> here because
  \<open>render\<close> is the field of the component definition below.
\<close>

definition render_0 :: "'a \<Rightarrow> 'a \<Rightarrow> 'a \<Rightarrow> 'a \<Rightarrow> 'a \<Rightarrow> 'a \<Rightarrow> vnode" where
  "render_0 ctx cache props setup data options =
     (let u = openBlock () in createElementBlock ''textarea'' None)"

subsection \<open>The render functions with the state they can reach\<close>

text \<open>
  What a call of a render function can reach: the objects that its six arguments refer
  to, the object bound to the module constant \<^verbatim>\<open>_hoisted_1\<close>, and the state of the vue
  runtime, of a type \<open>'r\<close> left open.
\<close>

record ('a, 'r) render_store =
  arg_ctx :: 'a
  arg_cache :: 'a
  arg_props :: 'a
  arg_setup :: 'a
  arg_data :: 'a
  arg_options :: 'a
  hoisted :: "(string \<times> string) list"
  runtime :: 'r

text \<open>
  The two helpers imported from \<^verbatim>\<open>vue\<close>, as operations on the runtime's state:
  \<^verbatim>\<open>openBlock()\<close> changes the state, \<^verbatim>\<open>createElementBlock(type, props)\<close> returns a node
  and changes the state. Their code is not in the repository, so a runtime is a parameter.
\<close>

record ('r, 'v) vue_runtime =
  rt_openBlock :: "'r \<Rightarrow> 'r"
  rt_createElementBlock :: "string \<Rightarrow> (string \<times> string) list option \<Rightarrow> 'r \<Rightarrow> 'v \<times> 'r"

text \<open>
  \<^verbatim>\<open>render$1\<close> and \<^verbatim>\<open>render\<close> as state transformers: the body
  \<^verbatim>\<open>(openBlock(), createElementBlock(...))\<close> calls the first helper, then the second on the
  state the first left, and returns the second's node. Nothing else is read or written.
\<close>

definition run_render_1 :: "('r, 'v) vue_runtime \<Rightarrow> ('a, 'r) render_store \<Rightarrow> 'v \<times> ('a, 'r) render_store" where
  "run_render_1 rt st =
     (let r1 = rt_openBlock rt (runtime st) in
      case rt_createElementBlock rt ''input'' (Some (hoisted st)) r1 of
        (node, r2) \<Rightarrow> (node, st\<lparr>runtime := r2\<rparr>))"

definition run_render_0 :: "('r, 'v) vue_runtime \<Rightarrow> ('a, 'r) render_store \<Rightarrow> 'v \<times> ('a, 'r) render_store" where
  "run_render_0 rt st =
     (let r1 = rt_openBlock rt (runtime st) in
      case rt_createElementBlock rt ''textarea'' None r1 of
        (node, r2) \<Rightarrow> (node, st\<lparr>runtime := r2\<rparr>))"

text \<open>
  Modelled from the spec: the runtime as the spec describes it, in which rendering has no
  side effect and produces one static node. \<^verbatim>\<open>openBlock\<close> leaves the state as it is and
  \<^verbatim>\<open>createElementBlock\<close> returns the node built from its arguments and leaves the state as
  it is.
\<close>

definition vue_spec :: "('r, vnode) vue_runtime" where
  "vue_spec =
     \<lparr>rt_openBlock = (\<lambda>r. r),
      rt_createElementBlock = (\<lambda>type props r. (createElementBlock type props, r))\<rparr>"

text \<open>
  The store in which the bundle is loaded: \<^verbatim>\<open>_hoisted_1\<close> is bound to \<^verbatim>\<open>{ type: "text" }\<close>.
\<close>

definition loaded_store :: "'a \<Rightarrow> 'a \<Rightarrow> 'a \<Rightarrow> 'a \<Rightarrow> 'a \<Rightarrow> 'a \<Rightarrow> 'r \<Rightarrow> ('a, 'r) render_store" where
  "loaded_store ctx cache props setup data options r =
     \<lparr>arg_ctx = ctx, arg_cache = cache, arg_props = props, arg_setup = setup,
      arg_data = data, arg_options = options, hoisted = hoisted_1, runtime = r\<rparr>"

section \<open>Component definitions\<close>

text \<open>
  A component definition is the object \<^verbatim>\<open>{ name, render, __file }\<close>. The object literal
  of the script block has the name only; \<^verbatim>\<open>render\<close> and \<^verbatim>\<open>__file\<close> are assigned
  afterwards, so both fields are optional (\<open>source_file\<close> is \<^verbatim>\<open>__file\<close>).
\<close>

record 'a component_def =
  name :: string
  render :: "('a \<Rightarrow> 'a \<Rightarrow> 'a \<Rightarrow> 'a \<Rightarrow> 'a \<Rightarrow> 'a \<Rightarrow> vnode) option"
  source_file :: "string option"

text \<open>
  \<^verbatim>\<open>var script$1 = { name: 'InputText' }; script$1.render = render$1;
  script$1.__file = "src/InputText.vue";\<close>
\<close>

definition script_1 :: "'a component_def" where
  "script_1 =
     (\<lparr>name = ''InputText'', render = None, source_file = None\<rparr>)
       \<lparr>render := Some render_1, source_file := Some ''src/InputText.vue''\<rparr>"

text \<open>
  \<^verbatim>\<open>var script = { name: 'InputTextarea' }; script.render = render;
  script.__file = "src/InputTextarea.vue";\<close>
\<close>

definition script :: "'a component_def" where
  "script =
     (\<lparr>name = ''InputTextarea'', render = None, source_file = None\<rparr>)
       \<lparr>render := Some render_0, source_file := Some ''src/InputTextarea.vue''\<rparr>"

section \<open>Objects used as registries\<close>

text \<open>
  A JavaScript object as far as \<^verbatim>\<open>for ... in\<close>, \<^verbatim>\<open>hasOwnProperty\<close> and property reads
  see it: its own enumerable string-keyed properties in enumeration order, and the
  enumerable properties found along its prototype chain.
\<close>

record 'v js_object =
  own :: "(string \<times> 'v) list"
  proto :: "(string \<times> 'v) list"

text \<open>An object literal: the listed properties, and a prototype with nothing enumerable.\<close>

definition object_literal :: "(string \<times> 'v) list \<Rightarrow> 'v js_object" where
  "object_literal kvs = \<lparr>own = kvs, proto = []\<rparr>"

text \<open>\<^verbatim>\<open>Object.keys\<close>: the own enumerable keys.\<close>

definition keys :: "'v js_object \<Rightarrow> string list" where
  "keys obj = map fst (own obj)"

text \<open>
  The keys a \<^verbatim>\<open>for (const prop in obj)\<close> loop visits: the own keys, then the inherited
  enumerable keys that no own key shadows, each once.
\<close>

definition for_in_keys :: "'v js_object \<Rightarrow> string list" where
  "for_in_keys obj =
     keys obj @ filter (\<lambda>k. k \<notin> set (keys obj)) (remdups (map fst (proto obj)))"

text \<open>The property read \<^verbatim>\<open>obj[prop]\<close>: own property first, then the prototype chain.\<close>

definition get :: "'v js_object \<Rightarrow> string \<Rightarrow> 'v option" where
  "get obj prop =
     (case map_of (own obj) prop of
        Some v \<Rightarrow> Some v
      | None \<Rightarrow> map_of (proto obj) prop)"

text \<open>
  What a \<^verbatim>\<open>throw\<close> carries: the \<^verbatim>\<open>TypeError\<close> of the language itself, or any value
  \<open>'e\<close> of the host. A statement completes normally or throws.
\<close>

datatype 'e thrown = TypeError | HostError 'e

datatype 'e completion = Normal | Throw "'e thrown"

text \<open>
  The call \<^verbatim>\<open>obj.hasOwnProperty(prop)\<close>. The method is looked up on the object like any
  property: when a property of that name is found among the object's values it is a
  registry value and not a function, and calling it is a \<^verbatim>\<open>TypeError\<close>; otherwise the
  built-in method answers whether \<^verbatim>\<open>prop\<close> is an own key.
\<close>

definition hasOwnProperty :: "'v js_object \<Rightarrow> string \<Rightarrow> 'e thrown + bool" where
  "hasOwnProperty obj prop =
     (case get obj ''hasOwnProperty'' of
        Some v \<Rightarrow> Inl TypeError
      | None \<Rightarrow> Inr (prop \<in> set (keys obj)))"

section \<open>The registry of the library\<close>

text \<open>
  The bundle: \<^verbatim>\<open>var components = { InputTextarea: script, InputText: script$1 };\<close>
\<close>

definition components :: "'a component_def js_object" where
  "components = object_literal [(''InputTextarea'', script), (''InputText'', script_1)]"

text \<open>
  The source module \<^verbatim>\<open>components.js\<close>: \<^verbatim>\<open>export default { InputTextarea, InputText }\<close>,
  over its two imports, the modules that the build makes of \<^verbatim>\<open>InputText.vue\<close> and
  \<^verbatim>\<open>InputTextarea.vue\<close>.
\<close>

definition components_js :: "'a component_def \<Rightarrow> 'a component_def \<Rightarrow> 'a component_def js_object" where
  "components_js InputText InputTextarea =
     object_literal [(''InputTextarea'', InputTextarea), (''InputText'', InputText)]"

section \<open>The host and the plugin\<close>

text \<open>
  The host handle \<^verbatim>\<open>Vue\<close> is an injected capability: its one operation
  \<^verbatim>\<open>Vue.component(name, definition)\<close> acts on the host's own registration state \<open>'s\<close>
  and either returns or throws.
\<close>

record ('s, 'e, 'a) vue =
  component :: "string \<Rightarrow> 'a component_def \<Rightarrow> 's \<Rightarrow> 'e completion \<times> 's"

text \<open>
  What an installation can read and write: the module's \<^verbatim>\<open>components\<close> binding and the
  state of the host.
\<close>

record ('a, 's) world =
  registry :: "'a component_def js_object"
  host_state :: "'s"

text \<open>
  The source plugin (\<^verbatim>\<open>index.js\<close>). The loop over the keys that \<^verbatim>\<open>for ... in\<close> yields:
  \<^verbatim>\<open>
  for (const prop in components) {
    if (components.hasOwnProperty(prop)) {
      const component = components[prop]
      Vue.component(component.name, component)
    }
  }\<close>
  There is no \<^verbatim>\<open>try\<close>: a throw ends the loop and the function. Reading \<^verbatim>\<open>.name\<close> of
  an undefined value is a \<^verbatim>\<open>TypeError\<close>.
\<close>

fun install_loop :: "('s, 'e, 'a) vue \<Rightarrow> string list \<Rightarrow> ('a, 's) world \<Rightarrow> 'e completion \<times> ('a, 's) world" where
  "install_loop Vue [] w = (Normal, w)"
| "install_loop Vue (prop # props) w =
     (case hasOwnProperty (registry w) prop of
        Inl err \<Rightarrow> (Throw err, w)
      | Inr is_own \<Rightarrow>
          if is_own then
            (case get (registry w) prop of
               None \<Rightarrow> (Throw TypeError, w)
             | Some component' \<Rightarrow>
                 (case component Vue (name component') component' (host_state w) of
                    (Normal, s') \<Rightarrow> install_loop Vue props (w\<lparr>host_state := s'\<rparr>)
                  | (Throw err, s') \<Rightarrow> (Throw err, w\<lparr>host_state := s'\<rparr>)))
          else install_loop Vue props w)"

definition install :: "('s, 'e, 'a) vue \<Rightarrow> ('a, 's) world \<Rightarrow> 'e completion \<times> ('a, 's) world" where
  "install Vue w = install_loop Vue (for_in_keys (registry w)) w"

text \<open>The plugin of the bundle, the same statements over the bundle's \<^verbatim>\<open>components\<close>.\<close>

fun dist_install_loop :: "('s, 'e, 'a) vue \<Rightarrow> string list \<Rightarrow> ('a, 's) world \<Rightarrow> 'e completion \<times> ('a, 's) world" where
  "dist_install_loop Vue [] w = (Normal, w)"
| "dist_install_loop Vue (prop # props) w =
     (case hasOwnProperty (registry w) prop of
        Inl err \<Rightarrow> (Throw err, w)
      | Inr is_own \<Rightarrow>
          if is_own then
            (case get (registry w) prop of
               None \<Rightarrow> (Throw TypeError, w)
             | Some component' \<Rightarrow>
                 (case component Vue (name component') component' (host_state w) of
                    (Normal, s') \<Rightarrow> dist_install_loop Vue props (w\<lparr>host_state := s'\<rparr>)
                  | (Throw err, s') \<Rightarrow> (Throw err, w\<lparr>host_state := s'\<rparr>)))
          else dist_install_loop Vue props w)"

definition dist_install :: "('s, 'e, 'a) vue \<Rightarrow> ('a, 's) world \<Rightarrow> 'e completion \<times> ('a, 's) world" where
  "dist_install Vue w = dist_install_loop Vue (for_in_keys (registry w)) w"

text \<open>
  The state in which each module is loaded: the bundle binds \<^verbatim>\<open>components\<close> to its own
  literal, the source plugin imports the default export of \<^verbatim>\<open>components.js\<close>.
\<close>

definition dist_loaded :: "'s \<Rightarrow> ('a, 's) world" where
  "dist_loaded s = \<lparr>registry = components, host_state = s\<rparr>"

definition src_loaded :: "'a component_def \<Rightarrow> 'a component_def \<Rightarrow> 's \<Rightarrow> ('a, 's) world" where
  "src_loaded InputText InputTextarea s =
     \<lparr>registry = components_js InputText InputTextarea, host_state = s\<rparr>"

section \<open>Observing the calls an installation makes\<close>

text \<open>
  A spy around a host: it hands every call to the host unchanged and writes down the
  name, the definition and how the call completed.
\<close>

type_synonym ('e, 'a) logged = "string \<times> 'a component_def \<times> 'e completion"

definition spy :: "('s, 'e, 'a) vue \<Rightarrow> (('e, 'a) logged list \<times> 's, 'e, 'a) vue" where
  "spy Vue =
     \<lparr>component = (\<lambda>n c (log, s).
        case component Vue n c s of (r, s') \<Rightarrow> (r, (log @ [(n, c, r)], s')))\<rparr>"

definition spied :: "('a, 's) world \<Rightarrow> ('a, ('e, 'a) logged list \<times> 's) world" where
  "spied w = \<lparr>registry = registry w, host_state = ([], host_state w)\<rparr>"

text \<open>The calls of one \<^verbatim>\<open>install(Vue)\<close> from the world \<open>w\<close>, in order, with their completions.\<close>

definition call_log :: "('s, 'e, 'a) vue \<Rightarrow> ('a, 's) world \<Rightarrow> ('e, 'a) logged list" where
  "call_log Vue w = fst (host_state (snd (install (spy Vue) (spied w))))"

text \<open>The arguments of those calls.\<close>

definition register_calls :: "('s, 'e, 'a) vue \<Rightarrow> ('a, 's) world \<Rightarrow> (string \<times> 'a component_def) list" where
  "register_calls Vue w = map (\<lambda>(n, c, r). (n, c)) (call_log Vue w)"

text \<open>The same for the bundle's plugin.\<close>

definition dist_call_log :: "('s, 'e, 'a) vue \<Rightarrow> ('a, 's) world \<Rightarrow> ('e, 'a) logged list" where
  "dist_call_log Vue w = fst (host_state (snd (dist_install (spy Vue) (spied w))))"

definition dist_register_calls :: "('s, 'e, 'a) vue \<Rightarrow> ('a, 's) world \<Rightarrow> (string \<times> 'a component_def) list" where
  "dist_register_calls Vue w = map (\<lambda>(n, c, r). (n, c)) (dist_call_log Vue w)"

text \<open>The call that the loop makes for a registry entry: the definition's own name, and the definition.\<close>

definition entry_call :: "string \<times> 'a component_def \<Rightarrow> string \<times> 'a component_def" where
  "entry_call e = (name (snd e), snd e)"

text \<open>
  The mock of the spec's scenario: \<^verbatim>\<open>register\<close> writes its arguments down and returns.
\<close>

definition hostMock :: "((string \<times> 'a component_def) list, 'e, 'a) vue" where
  "hostMock = \<lparr>component = (\<lambda>n c calls. (Normal, calls @ [(n, c)]))\<rparr>"

text \<open>
  A host that rejects a name it already has: it throws and leaves its table as it is.
\<close>

definition strictHost :: "(string list, string, 'a) vue" where
  "strictHost =
     \<lparr>component = (\<lambda>n c names.
        if n \<in> set names then (Throw (HostError ''already registered''), names)
        else (Normal, names @ [n]))\<rparr>"

text \<open>
  A host that finds one name invalid: for that name it throws, in every state, and leaves
  its table as it is.
\<close>

definition pickyHost :: "string \<Rightarrow> (string list, string, 'a) vue" where
  "pickyHost bad =
     \<lparr>component = (\<lambda>n c names.
        if n = bad then (Throw (HostError ''invalid name''), names)
        else (Normal, names @ [n]))\<rparr>"

section \<open>The installation as a sequence of register calls\<close>

text \<open>
  The installation described as a list of calls made in order. \<open>loop_calls\<close> lists the
  arguments that the loop body passes to the host when the loop visits the keys \<open>ks\<close> and
  no call throws.
\<close>

definition loop_calls :: "'a component_def js_object \<Rightarrow> string list \<Rightarrow> (string \<times> 'a component_def) list" where
  "loop_calls R ks =
     concat (map (\<lambda>k. if k \<in> set (keys R)
                        then (case get R k of Some c \<Rightarrow> [(name c, c)] | None \<Rightarrow> [])
                        else []) ks)"

text \<open>
  The calls an installation sets out to make, those it makes when every one returns: none
  when the lookup of \<^verbatim>\<open>hasOwnProperty\<close> finds a registry value.
\<close>

definition attempted :: "'a component_def js_object \<Rightarrow> (string \<times> 'a component_def) list" where
  "attempted R =
     (case get R ''hasOwnProperty'' of
        None \<Rightarrow> loop_calls R (for_in_keys R)
      | Some v \<Rightarrow> [])"

text \<open>Making the calls one after the other on the host, up to the first that throws.\<close>

fun register_each :: "('s, 'e, 'a) vue \<Rightarrow> (string \<times> 'a component_def) list \<Rightarrow> 's \<Rightarrow> 'e completion \<times> 's" where
  "register_each Vue [] s = (Normal, s)"
| "register_each Vue (call # calls) s =
     (case component Vue (fst call) (snd call) s of
        (Normal, s') \<Rightarrow> register_each Vue calls s'
      | (Throw err, s') \<Rightarrow> (Throw err, s'))"

text \<open>
  What a spy writes down meanwhile: each call goes to the host in the state the call before
  it left, a call that returns is followed by the next, and the first call that throws is
  the last one made.
\<close>

fun each_log :: "('s, 'e, 'a) vue \<Rightarrow> (string \<times> 'a component_def) list \<Rightarrow> 's \<Rightarrow> ('e, 'a) logged list" where
  "each_log Vue [] s = []"
| "each_log Vue (call # calls) s =
     (case component Vue (fst call) (snd call) s of
        (Normal, s') \<Rightarrow> (fst call, snd call, Normal) # each_log Vue calls s'
      | (Throw err, s') \<Rightarrow> [(fst call, snd call, Throw err)])"

section \<open>The loop makes the calls of the registry's own entries, in order\<close>

lemma get_own: "k \<in> set (keys R) \<Longrightarrow> \<exists>c. get R k = Some c"
  by (auto simp: get_def keys_def map_of_eq_None_iff split: option.splits)

lemma install_loop_shadowed:
  "get (registry w) ''hasOwnProperty'' = Some v \<Longrightarrow>
     install_loop Vue (k # ks) w = (Throw TypeError, w)"
  by (simp add: hasOwnProperty_def)

lemma install_loop_each:
  "get (registry w) ''hasOwnProperty'' = None \<Longrightarrow>
     install_loop Vue ks w =
       (case register_each Vue (loop_calls (registry w) ks) (host_state w) of
          (r, s') \<Rightarrow> (r, w\<lparr>host_state := s'\<rparr>))"
proof (induction ks arbitrary: w)
  case Nil
  then show ?case by (simp add: loop_calls_def)
next
  case (Cons k ks)
  show ?case
  proof (cases "k \<in> set (keys (registry w))")
    case False
    with Cons show ?thesis by (simp add: hasOwnProperty_def loop_calls_def)
  next
    case True
    then obtain c where c: "get (registry w) k = Some c" using get_own by blast
    obtain r s' where call: "component Vue (name c) c (host_state w) = (r, s')"
      by (cases "component Vue (name c) c (host_state w)")
    have lc: "loop_calls (registry w) (k # ks) = (name c, c) # loop_calls (registry w) ks"
      using True c by (simp add: loop_calls_def)
    show ?thesis
    proof (cases r)
      case Normal
      have "get (registry (w\<lparr>host_state := s'\<rparr>)) ''hasOwnProperty'' = None"
        using Cons.prems by simp
      from Cons.IH[OF this] show ?thesis
        using True c call Normal Cons.prems lc by (simp add: hasOwnProperty_def)
    next
      case (Throw err)
      then show ?thesis
        using True c call Cons.prems lc by (simp add: hasOwnProperty_def)
    qed
  qed
qed

lemma register_each_spy:
  "register_each (spy Vue) calls (log, s) =
     (case register_each Vue calls s of (r, s') \<Rightarrow> (r, (log @ each_log Vue calls s, s')))"
proof (induction calls arbitrary: log s)
  case Nil
  then show ?case by simp
next
  case (Cons call calls)
  obtain r s' where call: "component Vue (fst call) (snd call) s = (r, s')"
    by (cases "component Vue (fst call) (snd call) s")
  show ?case
  proof (cases r)
    case Normal
    then show ?thesis using call Cons.IH[of "log @ [(fst call, snd call, Normal)]" s']
      by (simp add: spy_def)
  next
    case (Throw err)
    then show ?thesis using call by (simp add: spy_def)
  qed
qed

lemma loop_calls_append: "loop_calls R (ks @ ks') = loop_calls R ks @ loop_calls R ks'"
  by (simp add: loop_calls_def)

lemma loop_calls_not_own: "\<forall>k \<in> set ks. k \<notin> set (keys R) \<Longrightarrow> loop_calls R ks = []"
  by (induction ks) (simp_all add: loop_calls_def)

lemma get_entry: "distinct (keys R) \<Longrightarrow> e \<in> set (own R) \<Longrightarrow> get R (fst e) = Some (snd e)"
  by (cases e) (simp add: get_def keys_def)

lemma loop_calls_own:
  assumes "distinct (keys R)" and "set es \<subseteq> set (own R)"
  shows "loop_calls R (map fst es) = map entry_call es"
  using assms(2)
proof (induction es)
  case Nil
  then show ?case by (simp add: loop_calls_def)
next
  case (Cons e es)
  then have e: "e \<in> set (own R)" and es: "set es \<subseteq> set (own R)" by simp_all
  have "fst e \<in> set (keys R)" using e by (simp add: keys_def)
  moreover have "get R (fst e) = Some (snd e)" using assms(1) e by (rule get_entry)
  moreover have "loop_calls R (map fst es) = map entry_call es" using Cons.IH es by simp
  ultimately show ?case
    using loop_calls_append[of R "[fst e]" "map fst es"]
    by (simp add: loop_calls_def entry_call_def)
qed

lemma loop_calls_for_in:
  assumes "distinct (keys R)"
  shows "loop_calls R (for_in_keys R) = map entry_call (own R)"
proof -
  have "loop_calls R (keys R) = map entry_call (own R)"
    using loop_calls_own[OF assms, of "own R"] by (simp add: keys_def)
  moreover have "loop_calls R (filter (\<lambda>k. k \<notin> set (keys R)) (remdups (map fst (proto R)))) = []"
    by (rule loop_calls_not_own) simp
  ultimately show ?thesis by (simp add: for_in_keys_def loop_calls_append)
qed


lemma get_for_in: "get R k = Some v \<Longrightarrow> k \<in> set (for_in_keys R)"
proof (cases "map_of (own R) k")
  case None
  assume g: "get R k = Some v"
  from None have "k \<notin> set (keys R)" by (simp add: keys_def map_of_eq_None_iff)
  moreover from g None have "map_of (proto R) k = Some v" by (simp add: get_def)
  then have "k \<in> set (map fst (proto R))" using map_of_SomeD by force
  ultimately show ?thesis by (simp add: for_in_keys_def)
next
  case (Some c)
  then have "k \<in> set (keys R)" using map_of_SomeD by (force simp: keys_def)
  then show ?thesis by (simp add: for_in_keys_def)
qed

lemma install_shadowed:
  assumes "get (registry w) ''hasOwnProperty'' = Some v"
  shows "install Vue w = (Throw TypeError, w)"
proof -
  from assms have "''hasOwnProperty'' \<in> set (for_in_keys (registry w))" by (rule get_for_in)
  then obtain k ks where "for_in_keys (registry w) = k # ks"
    by (cases "for_in_keys (registry w)") auto
  then show ?thesis
    using install_loop_shadowed[OF assms, of Vue k ks] by (simp add: install_def del: install_loop.simps)
qed

lemma install_plain:
  assumes "get (registry w) ''hasOwnProperty'' = None"
  shows "install Vue w =
     (case register_each Vue (attempted (registry w)) (host_state w) of
        (r, s') \<Rightarrow> (r, w\<lparr>host_state := s'\<rparr>))"
  using assms by (simp add: install_def install_loop_each attempted_def)

lemma call_log_each: "call_log Vue w = each_log Vue (attempted (registry w)) (host_state w)"
proof (cases "get (registry w) ''hasOwnProperty''")
  case None
  then have "get (registry (spied w)) ''hasOwnProperty'' = None" by (simp add: spied_def)
  from install_plain[OF this, of "spy Vue"] show ?thesis
    by (simp add: call_log_def spied_def register_each_spy split: prod.splits)
next
  case (Some v)
  then have "get (registry (spied w)) ''hasOwnProperty'' = Some v" by (simp add: spied_def)
  from install_shadowed[OF this, of "spy Vue"] show ?thesis
    using Some by (simp add: call_log_def spied_def attempted_def)
qed

lemma install_completion:
  "fst (install Vue w) =
     (case get (registry w) ''hasOwnProperty'' of
        None \<Rightarrow> fst (register_each Vue (attempted (registry w)) (host_state w))
      | Some v \<Rightarrow> Throw TypeError)"
  by (auto simp: install_plain install_shadowed split: option.splits prod.splits)

lemma attempted_distinct:
  "distinct (keys R) \<Longrightarrow> get R ''hasOwnProperty'' = None \<Longrightarrow> attempted R = map entry_call (own R)"
  by (simp add: attempted_def loop_calls_for_in)

lemma each_log_take:
  "map (\<lambda>(n, c, r). (n, c)) (each_log Vue calls s) = take (length (each_log Vue calls s)) calls"
proof (induction calls arbitrary: s)
  case Nil
  then show ?case by simp
next
  case (Cons call calls)
  show ?case
    by (cases "component Vue (fst call) (snd call) s"; cases "fst (component Vue (fst call) (snd call) s)")
       (simp_all add: Cons.IH)
qed

lemma each_log_Normal:
  "fst (register_each Vue calls s) = Normal \<Longrightarrow>
     each_log Vue calls s = map (\<lambda>call. (fst call, snd call, Normal)) calls"
proof (induction calls arbitrary: s)
  case Nil
  then show ?case by simp
next
  case (Cons call calls)
  then show ?case
    by (cases "component Vue (fst call) (snd call) s"; cases "fst (component Vue (fst call) (snd call) s)")
       simp_all
qed

lemma each_log_Throw:
  "(n, c, Throw x) \<in> set (each_log Vue calls s) \<Longrightarrow>
     \<exists>i < length calls. calls ! i = (n, c) \<and>
        each_log Vue calls s = map (\<lambda>call. (fst call, snd call, Normal)) (take i calls) @ [(n, c, Throw x)] \<and>
        fst (register_each Vue calls s) = Throw x"
proof (induction calls arbitrary: s)
  case Nil
  then show ?case by simp
next
  case (Cons call calls)
  obtain r s' where call: "component Vue (fst call) (snd call) s = (r, s')"
    by (cases "component Vue (fst call) (snd call) s")
  show ?case
  proof (cases r)
    case Normal
    with Cons.prems call have "(n, c, Throw x) \<in> set (each_log Vue calls s')" by simp
    from Cons.IH[OF this] obtain i where i: "i < length calls" "calls ! i = (n, c)"
      "each_log Vue calls s' = map (\<lambda>call. (fst call, snd call, Normal)) (take i calls) @ [(n, c, Throw x)]"
      "fst (register_each Vue calls s') = Throw x" by blast
    have "Suc i < length (call # calls)" using i(1) by simp
    moreover have "(call # calls) ! Suc i = (n, c)" using i(2) by simp
    moreover have "each_log Vue (call # calls) s =
        map (\<lambda>call. (fst call, snd call, Normal)) (take (Suc i) (call # calls)) @ [(n, c, Throw x)]"
      using call Normal i(3) by simp
    moreover have "fst (register_each Vue (call # calls) s) = Throw x"
      using call Normal i(4) by simp
    ultimately show ?thesis by blast
  next
    case (Throw err)
    with Cons.prems call have eq: "fst call = n" "snd call = c" "err = x" by simp_all
    have "0 < length (call # calls)" by simp
    moreover have "(call # calls) ! 0 = (n, c)" using eq by (cases call) simp
    moreover have "each_log Vue (call # calls) s =
        map (\<lambda>call. (fst call, snd call, Normal)) (take 0 (call # calls)) @ [(n, c, Throw x)]"
      using call Throw eq by simp
    moreover have "fst (register_each Vue (call # calls) s) = Throw x"
      using call Throw eq by simp
    ultimately show ?thesis by blast
  qed
qed

lemma install_loop_registry: "registry (snd (install_loop Vue ks w)) = registry w"
proof (induction ks arbitrary: w)
  case Nil
  then show ?case by simp
next
  case (Cons k ks)
  show ?case
    by (simp add: Cons.IH split: sum.splits option.splits prod.splits completion.splits)
qed

lemma dist_install_loop_eq: "dist_install_loop Vue ks w = install_loop Vue ks w"
proof (induction ks arbitrary: w)
  case Nil
  then show ?case by simp
next
  case (Cons k ks)
  show ?case
    by (simp add: Cons.IH split: sum.splits option.splits prod.splits completion.splits)
qed

lemma dist_install_eq: "dist_install Vue w = install Vue w"
  by (simp add: dist_install_def install_def dist_install_loop_eq)

lemma distinct_of_map: "distinct (map f xs) \<Longrightarrow> distinct xs"
  by (simp add: distinct_map)

lemma count_list_distinct: "distinct xs \<Longrightarrow> x \<in> set xs \<Longrightarrow> count_list xs x = 1"
  by (induction xs) (auto simp: count_list_0_iff)

lemma each_log_length: "length (each_log Vue calls s) \<le> length calls"
proof (induction calls arbitrary: s)
  case Nil
  then show ?case by simp
next
  case (Cons call calls)
  show ?case
    using Cons.IH
    by (cases "component Vue (fst call) (snd call) s"; cases "fst (component Vue (fst call) (snd call) s)")
       simp_all
qed

lemma register_calls_length: "length (register_calls Vue w) \<le> length (attempted (registry w))"
  by (simp add: register_calls_def call_log_each each_log_length)

lemma register_calls_take:
  "register_calls Vue w = take (length (register_calls Vue w)) (attempted (registry w))"
proof -
  have "length (register_calls Vue w) = length (each_log Vue (attempted (registry w)) (host_state w))"
    by (simp add: register_calls_def call_log_each)
  then show ?thesis
    using each_log_take[of Vue "attempted (registry w)" "host_state w"]
    by (simp add: register_calls_def call_log_each)
qed

lemma register_calls_Normal:
  assumes "fst (install Vue w) = Normal"
  shows "get (registry w) ''hasOwnProperty'' = None"
    and "call_log Vue w = map (\<lambda>call. (fst call, snd call, Normal)) (attempted (registry w))"
    and "register_calls Vue w = attempted (registry w)"
proof -
  show plain: "get (registry w) ''hasOwnProperty'' = None"
    using assms by (cases "get (registry w) ''hasOwnProperty''") (simp_all add: install_completion)
  with assms have "fst (register_each Vue (attempted (registry w)) (host_state w)) = Normal"
    by (simp add: install_completion)
  then show log: "call_log Vue w = map (\<lambda>call. (fst call, snd call, Normal)) (attempted (registry w))"
    by (simp add: call_log_each each_log_Normal)
  show "register_calls Vue w = attempted (registry w)"
    by (simp add: register_calls_def log comp_def)
qed

lemma loop_calls_entries:
  "call \<in> set (loop_calls R ks) \<Longrightarrow> fst call = name (snd call) \<and> snd call \<in> snd ` set (own R)"
proof (induction ks)
  case Nil
  then show ?case by (simp add: loop_calls_def)
next
  case (Cons k ks)
  from Cons.prems have "call \<in> set (loop_calls R [k]) \<or> call \<in> set (loop_calls R ks)"
    using loop_calls_append[of R "[k]" ks] by simp
  then show ?case
  proof
    assume here: "call \<in> set (loop_calls R [k])"
    have own: "k \<in> set (keys R)"
    proof (rule ccontr)
      assume "k \<notin> set (keys R)"
      then have "loop_calls R [k] = []" by (simp add: loop_calls_def)
      with here show False by simp
    qed
    then have one: "loop_calls R [k] = (case get R k of Some c \<Rightarrow> [(name c, c)] | None \<Rightarrow> [])"
      by (simp add: loop_calls_def)
    obtain c where c: "get R k = Some c" "call = (name c, c)"
    proof (cases "get R k")
      case None
      with one here show ?thesis by simp
    next
      case (Some c)
      with one here have "call = (name c, c)" by simp
      with Some show ?thesis by (rule that)
    qed
    from own have "map_of (own R) k \<noteq> None" by (simp add: keys_def map_of_eq_None_iff)
    with c(1) have "map_of (own R) k = Some c" by (auto simp: get_def split: option.splits)
    then have "(k, c) \<in> set (own R)" by (rule map_of_SomeD)
    then have "c \<in> snd ` set (own R)" by force
    with c(2) show ?thesis by simp
  next
    assume "call \<in> set (loop_calls R ks)"
    then show ?thesis by (rule Cons.IH)
  qed
qed

lemma attempted_entries:
  "call \<in> set (attempted R) \<Longrightarrow> fst call = name (snd call) \<and> snd call \<in> snd ` set (own R)"
  by (cases "get R ''hasOwnProperty''") (auto simp: attempted_def dest: loop_calls_entries)

lemma attempted_cases:
  "distinct (keys R) \<Longrightarrow> attempted R = map entry_call (own R) \<or> attempted R = []"
  by (cases "get R ''hasOwnProperty''") (simp_all add: attempted_def loop_calls_for_in)

lemma register_each_Normal_call:
  "fst (register_each Vue calls s) = Normal \<Longrightarrow> call \<in> set calls \<Longrightarrow>
     \<exists>s'. fst (component Vue (fst call) (snd call) s') = Normal"
proof (induction calls arbitrary: s)
  case Nil
  then show ?case by simp
next
  case (Cons first calls)
  obtain r s1 where first: "component Vue (fst first) (snd first) s = (r, s1)"
    by (cases "component Vue (fst first) (snd first) s")
  with Cons.prems(1) have r: "r = Normal" by (cases r) simp_all
  show ?case
  proof (cases "call = first")
    case True
    with first r have "fst (component Vue (fst call) (snd call) s) = Normal" by simp
    then show ?thesis by blast
  next
    case False
    with Cons.prems(2) have "call \<in> set calls" by simp
    moreover from Cons.prems(1) first r have "fst (register_each Vue calls s1) = Normal" by simp
    ultimately show ?thesis using Cons.IH by blast
  qed
qed

lemma each_log_Throw_logged:
  "fst (register_each Vue calls s) = Throw x \<Longrightarrow>
     \<exists>n c. (n, c, Throw x) \<in> set (each_log Vue calls s)"
proof (induction calls arbitrary: s)
  case Nil
  then show ?case by simp
next
  case (Cons call calls)
  obtain r s' where call: "component Vue (fst call) (snd call) s = (r, s')"
    by (cases "component Vue (fst call) (snd call) s")
  show ?case
  proof (cases r)
    case Normal
    with Cons.prems call have "fst (register_each Vue calls s') = Throw x" by simp
    from Cons.IH[OF this] obtain n c where "(n, c, Throw x) \<in> set (each_log Vue calls s')" by blast
    with call Normal have "(n, c, Throw x) \<in> set (each_log Vue (call # calls) s)" by simp
    then show ?thesis by blast
  next
    case (Throw err)
    with Cons.prems call have "err = x" by simp
    with call Throw have "(fst call, snd call, Throw x) \<in> set (each_log Vue (call # calls) s)" by simp
    then show ?thesis by blast
  qed
qed

lemma each_log_cases:
  "(fst (register_each Vue calls s) = Normal \<and>
      each_log Vue calls s = map (\<lambda>call. (fst call, snd call, Normal)) calls)
   \<or> (\<exists>i x. i < length calls \<and> fst (register_each Vue calls s) = Throw x \<and>
         each_log Vue calls s =
           map (\<lambda>call. (fst call, snd call, Normal)) (take i calls)
             @ [(fst (calls ! i), snd (calls ! i), Throw x)])"
proof (cases "fst (register_each Vue calls s)")
  case Normal
  then show ?thesis by (simp add: each_log_Normal)
next
  case (Throw x)
  from each_log_Throw_logged[OF Throw] obtain n c where
    "(n, c, Throw x) \<in> set (each_log Vue calls s)" by blast
  from each_log_Throw[OF this] obtain i where i: "i < length calls" "calls ! i = (n, c)"
    "each_log Vue calls s = map (\<lambda>call. (fst call, snd call, Normal)) (take i calls) @ [(n, c, Throw x)]"
    by blast
  from i(2) have "fst (calls ! i) = n" "snd (calls ! i) = c" by simp_all
  with i Throw show ?thesis by blast
qed

text \<open>The definitions that evaluating an installation on concrete data unfolds.\<close>

lemmas run_simps =
  install_def dist_install_def src_loaded_def dist_loaded_def components_def components_js_def
  object_literal_def for_in_keys_def keys_def hasOwnProperty_def get_def
  register_calls_def call_log_def spy_def spied_def entry_call_def
  script_1_def script_def

section \<open>The components and the shipped registry\<close>

text \<open>
  C5. Each render operation is pure. In every runtime, a render call leaves the objects
  of its six arguments and \<^verbatim>\<open>_hoisted_1\<close> as they were: it can change the runtime's state
  only, through the two helpers. When the helpers leave the runtime's state as it is and
  return a node that does not depend on it, a render call changes no state at all, its node
  depends neither on the arguments nor on the runtime's state, and a second call returns
  what the first did. In the runtime the spec describes, InputText's render yields one
  \<^verbatim>\<open>input\<close> node with \<^verbatim>\<open>type="text"\<close> and no children, InputTextarea's render one
  \<^verbatim>\<open>textarea\<close> node with no attributes and no children, and the store is unchanged; these
  nodes are the values of the \<^verbatim>\<open>render\<close> fields of the two definitions.
\<close>

theorem render_pure_single_node:
  "snd (run_render_1 (rt :: ('r, 'v) vue_runtime) (st :: ('b, 'r) render_store)) =
      st\<lparr>runtime := runtime (snd (run_render_1 rt st))\<rparr>
   \<and> snd (run_render_0 rt st) = st\<lparr>runtime := runtime (snd (run_render_0 rt st))\<rparr>
   \<and> ((\<forall>r. rt_openBlock rt r = r)
        \<and> (\<forall>t p r. snd (rt_createElementBlock rt t p r) = r)
        \<and> (\<forall>t p r r'. fst (rt_createElementBlock rt t p r) = fst (rt_createElementBlock rt t p r'))
       \<longrightarrow> snd (run_render_1 rt st) = st
         \<and> snd (run_render_0 rt st) = st
         \<and> fst (run_render_1 rt (st\<lparr>arg_ctx := a, arg_cache := b, arg_props := c, arg_setup := d,
                                   arg_data := e, arg_options := f, runtime := r'\<rparr>)) = fst (run_render_1 rt st)
         \<and> fst (run_render_0 rt (st\<lparr>arg_ctx := a, arg_cache := b, arg_props := c, arg_setup := d,
                                   arg_data := e, arg_options := f, runtime := r'\<rparr>)) = fst (run_render_0 rt st)
         \<and> run_render_1 rt (snd (run_render_1 rt st)) = run_render_1 rt st
         \<and> run_render_0 rt (snd (run_render_0 rt st)) = run_render_0 rt st)
   \<and> run_render_1 vue_spec (loaded_store ctx cache props setup data options r) =
        (VNode ''input'' (Some [(''type'', ''text'')]) [], loaded_store ctx cache props setup data options r)
   \<and> run_render_0 vue_spec (loaded_store ctx cache props setup data options r) =
        (VNode ''textarea'' None [], loaded_store ctx cache props setup data options r)
   \<and> render_1 ctx cache props setup data options =
        fst (run_render_1 vue_spec (loaded_store ctx cache props setup data options r))
   \<and> render_0 ctx cache props setup data options =
        fst (run_render_0 vue_spec (loaded_store ctx cache props setup data options r))
   \<and> render_1 ctx cache props setup data options = VNode ''input'' (Some [(''type'', ''text'')]) []
   \<and> render_1 ctx cache props setup data options = render_1 ctx' cache' props' setup' data' options'
   \<and> render_0 ctx cache props setup data options = VNode ''textarea'' None []
   \<and> render_0 ctx cache props setup data options = render_0 ctx' cache' props' setup' data' options'
   \<and> render (script_1 :: 'a component_def) = Some render_1
   \<and> render (script :: 'a component_def) = Some render_0"
proof -
  have f1: "snd (run_render_1 rt st) = st\<lparr>runtime := runtime (snd (run_render_1 rt st))\<rparr>"
    by (simp add: run_render_1_def Let_def case_prod_beta)
  have f0: "snd (run_render_0 rt st) = st\<lparr>runtime := runtime (snd (run_render_0 rt st))\<rparr>"
    by (simp add: run_render_0_def Let_def case_prod_beta)
  have pure: "snd (run_render_1 rt st) = st
         \<and> snd (run_render_0 rt st) = st
         \<and> fst (run_render_1 rt (st\<lparr>arg_ctx := a, arg_cache := b, arg_props := c, arg_setup := d,
                                   arg_data := e, arg_options := f, runtime := r'\<rparr>)) = fst (run_render_1 rt st)
         \<and> fst (run_render_0 rt (st\<lparr>arg_ctx := a, arg_cache := b, arg_props := c, arg_setup := d,
                                   arg_data := e, arg_options := f, runtime := r'\<rparr>)) = fst (run_render_0 rt st)
         \<and> run_render_1 rt (snd (run_render_1 rt st)) = run_render_1 rt st
         \<and> run_render_0 rt (snd (run_render_0 rt st)) = run_render_0 rt st"
    if ob: "\<forall>r. rt_openBlock rt r = r"
      and cb: "\<forall>t p r. snd (rt_createElementBlock rt t p r) = r"
      and cv: "\<forall>t p r r'. fst (rt_createElementBlock rt t p r) = fst (rt_createElementBlock rt t p r')"
  proof -
    have s1: "snd (run_render_1 rt u) = u" for u :: "('b, 'r) render_store"
      using cb[rule_format, of "''input''" "Some (hoisted u)" "runtime u"]
      by (simp add: run_render_1_def Let_def ob case_prod_beta)
    have s0: "snd (run_render_0 rt u) = u" for u :: "('b, 'r) render_store"
      using cb[rule_format, of "''textarea''" None "runtime u"]
      by (simp add: run_render_0_def Let_def ob case_prod_beta)
    have n1: "fst (run_render_1 rt u) = fst (rt_createElementBlock rt ''input'' (Some (hoisted u)) (runtime u))"
      for u :: "('b, 'r) render_store"
      by (simp add: run_render_1_def Let_def ob case_prod_beta)
    have n0: "fst (run_render_0 rt u) = fst (rt_createElementBlock rt ''textarea'' None (runtime u))"
      for u :: "('b, 'r) render_store"
      by (simp add: run_render_0_def Let_def ob case_prod_beta)
    have v1: "fst (run_render_1 rt (st\<lparr>arg_ctx := a, arg_cache := b, arg_props := c, arg_setup := d,
        arg_data := e, arg_options := f, runtime := r'\<rparr>)) = fst (run_render_1 rt st)"
      using cv[rule_format, of "''input''" "Some (hoisted st)" r' "runtime st"] by (simp add: n1)
    have v0: "fst (run_render_0 rt (st\<lparr>arg_ctx := a, arg_cache := b, arg_props := c, arg_setup := d,
        arg_data := e, arg_options := f, runtime := r'\<rparr>)) = fst (run_render_0 rt st)"
      using cv[rule_format, of "''textarea''" None r' "runtime st"] by (simp add: n0)
    show ?thesis using s1 s0 v1 v0 by simp
  qed
  have spec1: "run_render_1 vue_spec (loaded_store ctx cache props setup data options r) =
        (VNode ''input'' (Some [(''type'', ''text'')]) [], loaded_store ctx cache props setup data options r)"
    by (simp add: run_render_1_def vue_spec_def loaded_store_def createElementBlock_def hoisted_1_def)
  have spec0: "run_render_0 vue_spec (loaded_store ctx cache props setup data options r) =
        (VNode ''textarea'' None [], loaded_store ctx cache props setup data options r)"
    by (simp add: run_render_0_def vue_spec_def loaded_store_def createElementBlock_def)
  have p1: "render_1 ctx cache props setup data options = VNode ''input'' (Some [(''type'', ''text'')]) []"
    and p1': "render_1 ctx' cache' props' setup' data' options' = VNode ''input'' (Some [(''type'', ''text'')]) []"
    by (simp_all add: render_1_def createElementBlock_def hoisted_1_def)
  have p0: "render_0 ctx cache props setup data options = VNode ''textarea'' None []"
    and p0': "render_0 ctx' cache' props' setup' data' options' = VNode ''textarea'' None []"
    by (simp_all add: render_0_def createElementBlock_def)
  have sc: "render (script_1 :: 'a component_def) = Some render_1"
    "render (script :: 'a component_def) = Some render_0"
    by (simp_all add: script_1_def script_def)
  show ?thesis
    using f1 f0 pure spec1 spec0 p1 p1' p0 p0' sc by simp
qed

text \<open>C5 in the runtime the spec describes, from the store of the loaded bundle.\<close>

theorem render_pure_single_node_witness:
  "(\<forall>r :: nat. rt_openBlock (vue_spec :: (nat, vnode) vue_runtime) r = r)
   \<and> (\<forall>t p (r :: nat). snd (rt_createElementBlock (vue_spec :: (nat, vnode) vue_runtime) t p r) = r)
   \<and> (\<forall>t p (r :: nat) (r' :: nat). fst (rt_createElementBlock (vue_spec :: (nat, vnode) vue_runtime) t p r) =
          fst (rt_createElementBlock (vue_spec :: (nat, vnode) vue_runtime) t p r'))
   \<and> snd (run_render_1 vue_spec (loaded_store () () () () () () (0 :: nat))) = loaded_store () () () () () () 0
   \<and> snd (run_render_0 vue_spec (loaded_store () () () () () () (0 :: nat))) = loaded_store () () () () () () 0
   \<and> fst (run_render_1 vue_spec (loaded_store () () () () () () (7 :: nat))) =
        fst (run_render_1 vue_spec (loaded_store () () () () () () (0 :: nat)))
   \<and> run_render_1 vue_spec (snd (run_render_1 vue_spec (loaded_store () () () () () () (0 :: nat)))) =
        run_render_1 vue_spec (loaded_store () () () () () () (0 :: nat))
   \<and> fst (run_render_1 vue_spec (loaded_store () () () () () () (0 :: nat))) =
        VNode ''input'' (Some [(''type'', ''text'')]) []
   \<and> fst (run_render_0 vue_spec (loaded_store () () () () () () (0 :: nat))) = VNode ''textarea'' None []"
proof -
  let ?rt = "vue_spec :: (nat, vnode) vue_runtime"
  let ?st = "loaded_store () () () () () () (0 :: nat)"
  have h1: "\<forall>r :: nat. rt_openBlock ?rt r = r" by (simp add: vue_spec_def)
  have h2: "\<forall>t p (r :: nat). snd (rt_createElementBlock ?rt t p r) = r" by (simp add: vue_spec_def)
  have h3: "\<forall>t p (r :: nat) r'. fst (rt_createElementBlock ?rt t p r) = fst (rt_createElementBlock ?rt t p r')"
    by (simp add: vue_spec_def)
  note inst = render_pure_single_node[where rt = ?rt and st = ?st and a = "()" and b = "()" and c = "()"
      and d = "()" and e = "()" and f = "()" and r' = 7 and ctx = "()" and cache = "()" and props = "()"
      and data = "()" and options = "()" and r = "0 :: nat"]
  have upd: "?st\<lparr>arg_ctx := (), arg_cache := (), arg_props := (), arg_setup := (),
      arg_data := (), arg_options := (), runtime := 7\<rparr> = loaded_store () () () () () () (7 :: nat)"
    by (simp add: loaded_store_def)
  note pure = inst[THEN conjunct2, THEN conjunct2, THEN conjunct1, rule_format,
      OF conjI[OF h1 conjI[OF h2 h3]]]
  note spec = inst[THEN conjunct2, THEN conjunct2, THEN conjunct2]
  from pure have a: "snd (run_render_1 ?rt ?st) = ?st" by (rule conjunct1)
  from pure have b: "snd (run_render_0 ?rt ?st) = ?st" by (rule conjunct2[THEN conjunct1])
  from pure have "fst (run_render_1 ?rt (?st\<lparr>arg_ctx := (), arg_cache := (), arg_props := (),
      arg_setup := (), arg_data := (), arg_options := (), runtime := 7\<rparr>)) = fst (run_render_1 ?rt ?st)"
    by (rule conjunct2[THEN conjunct2, THEN conjunct1])
  then have c: "fst (run_render_1 ?rt (loaded_store () () () () () () (7 :: nat))) = fst (run_render_1 ?rt ?st)"
    unfolding upd .
  from pure have d: "run_render_1 ?rt (snd (run_render_1 ?rt ?st)) = run_render_1 ?rt ?st"
    by (rule conjunct2[THEN conjunct2, THEN conjunct2, THEN conjunct2, THEN conjunct1])
  from spec have "run_render_1 ?rt ?st = (VNode ''input'' (Some [(''type'', ''text'')]) [], ?st)"
    by (rule conjunct1)
  then have e: "fst (run_render_1 ?rt ?st) = VNode ''input'' (Some [(''type'', ''text'')]) []" by simp
  from spec have "run_render_0 ?rt ?st = (VNode ''textarea'' None [], ?st)"
    by (rule conjunct2[THEN conjunct1])
  then have f: "fst (run_render_0 ?rt ?st) = VNode ''textarea'' None []" by simp
  show ?thesis
    by (intro conjI) (fact h1 h2 h3 a b c d e f)+
qed

text \<open>
  C9. In the shipped registry every key is the declared name of the definition stored
  under it: \<^verbatim>\<open>InputText\<close> holds the definition named \<^verbatim>\<open>InputText\<close>, \<^verbatim>\<open>InputTextarea\<close> the
  one named \<^verbatim>\<open>InputTextarea\<close>. So the call made for an entry (declared name, definition)
  is the entry itself (key, definition), and the declared names are pairwise distinct.
  The registry of the source module over the two built components is the same object.
\<close>

theorem shipped_keys_are_names:
  "keys (components :: 'a component_def js_object) = [''InputTextarea'', ''InputText'']
   \<and> get (components :: 'a component_def js_object) ''InputText'' = Some script_1
   \<and> name (script_1 :: 'a component_def) = ''InputText''
   \<and> get (components :: 'a component_def js_object) ''InputTextarea'' = Some script
   \<and> name (script :: 'a component_def) = ''InputTextarea''
   \<and> keys (components :: 'a component_def js_object) =
        map (\<lambda>e. name (snd e)) (own (components :: 'a component_def js_object))
   \<and> map entry_call (own (components :: 'a component_def js_object)) = own components
   \<and> distinct (map (\<lambda>e. name (snd e)) (own (components :: 'a component_def js_object)))
   \<and> components_js script_1 script = (components :: 'a component_def js_object)"
  by (simp add: components_def components_js_def object_literal_def keys_def get_def
        script_1_def script_def entry_call_def)

section \<open>What one installation registers\<close>

text \<open>
  C2. With the shipped registry of the two entries, \<^verbatim>\<open>install(hostMock)\<close> returns
  normally and the mock has recorded exactly two calls: \<^verbatim>\<open>("InputTextarea", script)\<close> and
  \<^verbatim>\<open>("InputText", script$1)\<close>, each exactly once and nothing else, where the first
  definition renders a \<^verbatim>\<open>textarea\<close> node and the second an \<^verbatim>\<open>input\<close> node of type text.
  This holds for the bundle's plugin and for the source plugin alike.
\<close>

theorem install_hostMock_calls:
  "own (components :: 'a component_def js_object) = [(''InputTextarea'', script), (''InputText'', script_1)]
   \<and> fst (dist_install hostMock (dist_loaded [])) = (Normal :: 'e completion)
   \<and> host_state (snd (dist_install (hostMock :: (_, 'e, 'a) vue) (dist_loaded []))) =
        [(''InputTextarea'', script), (''InputText'', script_1)]
   \<and> count_list (host_state (snd (dist_install (hostMock :: (_, 'e, 'a) vue) (dist_loaded []))))
        (''InputText'', script_1) = 1
   \<and> count_list (host_state (snd (dist_install (hostMock :: (_, 'e, 'a) vue) (dist_loaded []))))
        (''InputTextarea'', script) = 1
   \<and> length (host_state (snd (dist_install (hostMock :: (_, 'e, 'a) vue) (dist_loaded [])))) = 2
   \<and> install (hostMock :: (_, 'e, 'a) vue) (src_loaded script_1 script []) =
        (Normal, src_loaded script_1 script [(''InputTextarea'', script), (''InputText'', script_1)])
   \<and> name (script_1 :: 'a component_def) = ''InputText''
   \<and> map_option (\<lambda>r. r ctx cache props setup data options) (render (script_1 :: 'a component_def)) =
        Some (VNode ''input'' (Some [(''type'', ''text'')]) [])
   \<and> name (script :: 'a component_def) = ''InputTextarea''
   \<and> map_option (\<lambda>r. r ctx cache props setup data options) (render (script :: 'a component_def)) =
        Some (VNode ''textarea'' None [])"
  by (simp add: dist_install_def install_def dist_loaded_def src_loaded_def components_def
        components_js_def object_literal_def for_in_keys_def keys_def hasOwnProperty_def get_def
        hostMock_def script_1_def script_def render_1_def render_0_def createElementBlock_def
        hoisted_1_def)

text \<open>
  C1, as stated, at a host that throws: the registry has two keys, the host finds the
  name \<^verbatim>\<open>InputTextarea\<close> invalid, and \<^verbatim>\<open>install\<close> makes one register call and throws;
  \<^verbatim>\<open>register\<close> is never called for InputText.
\<close>

theorem throwing_host_skips_components:
  "register_calls (pickyHost ''InputTextarea'') (src_loaded (script_1 :: unit component_def) script []) =
      [(''InputTextarea'', script)]
   \<and> count_list (register_calls (pickyHost ''InputTextarea'') (src_loaded (script_1 :: unit component_def) script []))
        (''InputText'', script_1) = 0
   \<and> length (register_calls (pickyHost ''InputTextarea'') (src_loaded (script_1 :: unit component_def) script [])) = 1
   \<and> length (keys (registry (src_loaded (script_1 :: unit component_def) script ([] :: string list)))) = 2
   \<and> length (register_calls (pickyHost ''InputTextarea'') (src_loaded (script_1 :: unit component_def) script []))
        \<noteq> length (keys (registry (src_loaded (script_1 :: unit component_def) script ([] :: string list))))
   \<and> fst (install (pickyHost ''InputTextarea'') (src_loaded (script_1 :: unit component_def) script [])) =
        Throw (HostError ''invalid name'')"
  by (simp add: run_simps pickyHost_def)

text \<open>
  C1. For every registry (its keys distinct, as those of any object are, and the declared
  names of its definitions pairwise distinct) and every host: when \<^verbatim>\<open>install(host)\<close>
  returns normally, the register calls it made are those of the registry's own entries,
  one for each entry and in their order, each with the entry's declared name and its
  definition. So every definition of the registry was registered exactly once under its
  name, and the number of calls is the number of keys.
\<close>

theorem install_registers_every_entry_once:
  assumes "distinct (keys (registry w))"
    and "distinct (map (\<lambda>e. name (snd e)) (own (registry w)))"
    and "fst (install Vue w) = Normal"
  shows "register_calls Vue w = map entry_call (own (registry w))
     \<and> (\<forall>e \<in> set (own (registry w)). count_list (register_calls Vue w) (name (snd e), snd e) = 1)
     \<and> length (register_calls Vue w) = length (keys (registry w))"
proof -
  have calls: "register_calls Vue w = map entry_call (own (registry w))"
    using register_calls_Normal[OF assms(3)] assms(1) by (simp add: attempted_distinct)
  have m: "map fst (map entry_call (own (registry w))) = map (\<lambda>e. name (snd e)) (own (registry w))"
    by (simp add: entry_call_def comp_def)
  have "distinct (map fst (map entry_call (own (registry w))))"
    unfolding m by (rule assms(2))
  then have d: "distinct (map entry_call (own (registry w)))" by (rule distinct_of_map)
  have "count_list (register_calls Vue w) (name (snd e), snd e) = 1" if "e \<in> set (own (registry w))" for e
  proof -
    from that have "entry_call e \<in> set (map entry_call (own (registry w)))" by simp
    with d have "count_list (map entry_call (own (registry w))) (entry_call e) = 1"
      by (rule count_list_distinct)
    then show ?thesis by (simp add: calls entry_call_def)
  qed
  then show ?thesis using calls by (simp add: keys_def)
qed

theorem install_registers_every_entry_once_witness:
  "distinct (keys (registry (src_loaded (script_1 :: unit component_def) script ([] :: (string \<times> unit component_def) list))))
   \<and> distinct (map (\<lambda>e. name (snd e))
         (own (registry (src_loaded (script_1 :: unit component_def) script ([] :: (string \<times> unit component_def) list)))))
   \<and> fst (install (hostMock :: (_, unit, unit) vue) (src_loaded script_1 script [])) = Normal
   \<and> register_calls (hostMock :: (_, unit, unit) vue) (src_loaded script_1 script []) =
        [(''InputTextarea'', script), (''InputText'', script_1)]
   \<and> count_list (register_calls (hostMock :: (_, unit, unit) vue) (src_loaded script_1 script []))
        (''InputText'', script_1) = 1
   \<and> count_list (register_calls (hostMock :: (_, unit, unit) vue) (src_loaded script_1 script []))
        (''InputTextarea'', script) = 1
   \<and> length (register_calls (hostMock :: (_, unit, unit) vue) (src_loaded script_1 script [])) = 2"
proof -
  let ?w = "src_loaded (script_1 :: unit component_def) script ([] :: (string \<times> unit component_def) list)"
  let ?Vue = "hostMock :: (_, unit, unit) vue"
  have h1: "distinct (keys (registry ?w))" by (simp add: run_simps)
  have h2: "distinct (map (\<lambda>e. name (snd e)) (own (registry ?w)))" by (simp add: run_simps)
  have h3: "fst (install ?Vue ?w) = Normal" by (simp add: run_simps hostMock_def)
  have own: "own (registry ?w) = [(''InputTextarea'', script), (''InputText'', script_1)]"
    by (simp add: src_loaded_def components_js_def object_literal_def)
  from install_registers_every_entry_once[OF h1 h2 h3]
  have c: "register_calls ?Vue ?w = map entry_call (own (registry ?w))"
    and n: "\<forall>e \<in> set (own (registry ?w)). count_list (register_calls ?Vue ?w) (name (snd e), snd e) = 1"
    and l: "length (register_calls ?Vue ?w) = length (keys (registry ?w))"
    by blast+
  have c': "register_calls ?Vue ?w = [(''InputTextarea'', script), (''InputText'', script_1)]"
    using c unfolding own by (simp add: entry_call_def script_1_def script_def)
  have n1: "count_list (register_calls ?Vue ?w) (''InputText'', script_1) = 1"
    using n unfolding own by (simp add: script_1_def script_def)
  have n2: "count_list (register_calls ?Vue ?w) (''InputTextarea'', script) = 1"
    using n unfolding own by (simp add: script_1_def script_def)
  have l': "length (register_calls ?Vue ?w) = 2"
    using l unfolding keys_def own by simp
  from h1 h2 h3 c' n1 n2 l' show ?thesis by blast
qed

text \<open>
  C3. Every register call that \<^verbatim>\<open>install\<close> makes, on any host and from any state, passes
  as name the \<^verbatim>\<open>name\<close> field of the definition it passes, and that definition is a value
  of the registry. The call number \<open>i\<close> is the one for the entry number \<open>i\<close>: its name is
  that entry's declared name whatever the entry's key is, and when \<^verbatim>\<open>install\<close> returns
  normally there is such a call for every entry.
\<close>

theorem install_registers_by_declared_name:
  "(\<forall>call \<in> set (register_calls Vue w).
       fst call = name (snd call) \<and> snd call \<in> snd ` set (own (registry w)))
   \<and> (distinct (keys (registry w)) \<and> i < length (register_calls Vue w) \<longrightarrow>
         i < length (own (registry w)) \<and>
         register_calls Vue w ! i = (name (snd (own (registry w) ! i)), snd (own (registry w) ! i)))
   \<and> (distinct (keys (registry w)) \<and> fst (install Vue w) = Normal \<longrightarrow>
         length (register_calls Vue w) = length (own (registry w)))"
proof -
  let ?R = "registry w"
  let ?calls = "register_calls Vue w"
  have pre: "?calls = take (length ?calls) (attempted ?R)" by (rule register_calls_take)
  have a: "fst call = name (snd call) \<and> snd call \<in> snd ` set (own ?R)" if "call \<in> set ?calls" for call
  proof -
    from that pre have "call \<in> set (take (length ?calls) (attempted ?R))" by simp
    then have "call \<in> set (attempted ?R)" by (rule in_set_takeD)
    then show ?thesis by (rule attempted_entries)
  qed
  have b: "i < length (own ?R) \<and> ?calls ! i = (name (snd (own ?R ! i)), snd (own ?R ! i))"
    if d: "distinct (keys ?R)" and i: "i < length ?calls"
  proof -
    have le: "length ?calls \<le> length (attempted ?R)" by (rule register_calls_length)
    with i have "attempted ?R \<noteq> []" by auto
    with attempted_cases[OF d] have att: "attempted ?R = map entry_call (own ?R)" by blast
    with le i have i': "i < length (own ?R)" by simp
    have "?calls ! i = take (length ?calls) (attempted ?R) ! i" using pre by simp
    also have "\<dots> = attempted ?R ! i" using i by simp
    also have "\<dots> = entry_call (own ?R ! i)" using att i' by simp
    finally show ?thesis using i' by (simp add: entry_call_def)
  qed
  have c: "length ?calls = length (own ?R)"
    if d: "distinct (keys ?R)" and n: "fst (install Vue w) = Normal"
    using register_calls_Normal[OF n] d by (simp add: attempted_distinct)
  from a b c show ?thesis by blast
qed

theorem install_registers_by_declared_name_witness:
  "distinct (keys (registry \<lparr>registry = object_literal [(''Field'', script_1 :: unit component_def), (''Area'', script)],
                              host_state = ([] :: (string \<times> unit component_def) list)\<rparr>))
   \<and> (0 :: nat) < length (register_calls (hostMock :: (_, unit, unit) vue)
         \<lparr>registry = object_literal [(''Field'', script_1), (''Area'', script)], host_state = []\<rparr>)
   \<and> fst (install (hostMock :: (_, unit, unit) vue)
         \<lparr>registry = object_literal [(''Field'', script_1), (''Area'', script)], host_state = []\<rparr>) = Normal
   \<and> fst (own (registry \<lparr>registry = object_literal [(''Field'', script_1 :: unit component_def), (''Area'', script)],
                              host_state = ([] :: (string \<times> unit component_def) list)\<rparr>) ! 0) = ''Field''
   \<and> register_calls (hostMock :: (_, unit, unit) vue)
         \<lparr>registry = object_literal [(''Field'', script_1), (''Area'', script)], host_state = []\<rparr> ! 0 =
        (''InputText'', script_1)
   \<and> length (register_calls (hostMock :: (_, unit, unit) vue)
         \<lparr>registry = object_literal [(''Field'', script_1), (''Area'', script)], host_state = []\<rparr>) = 2
   \<and> list_all (\<lambda>call. fst call = name (snd call))
        (register_calls (hostMock :: (_, unit, unit) vue)
           \<lparr>registry = object_literal [(''Field'', script_1), (''Area'', script)], host_state = []\<rparr>)"
proof -
  let ?w = "\<lparr>registry = object_literal [(''Field'', script_1 :: unit component_def), (''Area'', script)],
             host_state = ([] :: (string \<times> unit component_def) list)\<rparr>"
  let ?Vue = "hostMock :: (_, unit, unit) vue"
  have h1: "distinct (keys (registry ?w))" by (simp add: object_literal_def keys_def)
  have h2: "(0 :: nat) < length (register_calls ?Vue ?w)" by (simp add: run_simps hostMock_def)
  have h3: "fst (install ?Vue ?w) = Normal" by (simp add: run_simps hostMock_def)
  have own: "own (registry ?w) = [(''Field'', script_1), (''Area'', script)]"
    by (simp add: object_literal_def)
  note inst = install_registers_by_declared_name[of ?Vue ?w 0]
  from inst have a: "\<forall>call \<in> set (register_calls ?Vue ?w). fst call = name (snd call)" by blast
  from inst h1 h2 have "register_calls ?Vue ?w ! 0 = (name (snd (own (registry ?w) ! 0)), snd (own (registry ?w) ! 0))"
    by blast
  then have b: "register_calls ?Vue ?w ! 0 = (''InputText'', script_1)"
    unfolding own by (simp add: script_1_def)
  from inst h1 h3 have "length (register_calls ?Vue ?w) = length (own (registry ?w))" by blast
  then have c: "length (register_calls ?Vue ?w) = 2" unfolding own by simp
  have k: "fst (own (registry ?w) ! 0) = ''Field''" unfolding own by simp
  from a have a': "list_all (\<lambda>call. fst call = name (snd call)) (register_calls ?Vue ?w)"
    by (simp add: list_all_iff)
  from h1 h2 h3 k b c a' show ?thesis by blast
qed

section \<open>A host that throws\<close>

text \<open>
  C4. On every host: when a register call made by \<^verbatim>\<open>install\<close> throws, \<^verbatim>\<open>install\<close>
  completes by throwing that very value to its caller, neither caught nor translated.
  And when the host's register never returns for the declared name of some registry entry,
  \<^verbatim>\<open>install\<close> does not return normally: the failure is not swallowed.
\<close>

theorem install_propagates_host_failure:
  "((n, c, Throw x) \<in> set (call_log Vue w) \<longrightarrow> fst (install Vue w) = Throw x)
   \<and> (distinct (keys (registry w)) \<and> e \<in> set (own (registry w))
        \<and> (\<forall>s. fst (component Vue (name (snd e)) (snd e) s) \<noteq> Normal)
        \<longrightarrow> fst (install Vue w) \<noteq> Normal)"
proof -
  have a: "fst (install Vue w) = Throw x" if log: "(n, c, Throw x) \<in> set (call_log Vue w)"
  proof -
    from log have m: "(n, c, Throw x) \<in> set (each_log Vue (attempted (registry w)) (host_state w))"
      by (simp add: call_log_each)
    from each_log_Throw[OF m]
    have r: "fst (register_each Vue (attempted (registry w)) (host_state w)) = Throw x"
      by blast
    from m have "attempted (registry w) \<noteq> []" by auto
    then have "get (registry w) ''hasOwnProperty'' = None"
      by (cases "get (registry w) ''hasOwnProperty''") (simp_all add: attempted_def)
    with r show ?thesis by (simp add: install_completion)
  qed
  have b: "fst (install Vue w) \<noteq> Normal"
    if d: "distinct (keys (registry w))" and e: "e \<in> set (own (registry w))"
      and t: "\<forall>s. fst (component Vue (name (snd e)) (snd e) s) \<noteq> Normal"
  proof
    assume n: "fst (install Vue w) = Normal"
    then have plain: "get (registry w) ''hasOwnProperty'' = None" by (rule register_calls_Normal(1))
    with n have r: "fst (register_each Vue (attempted (registry w)) (host_state w)) = Normal"
      by (simp add: install_completion)
    from d plain have "attempted (registry w) = map entry_call (own (registry w))"
      by (rule attempted_distinct)
    with e have "entry_call e \<in> set (attempted (registry w))" by simp
    from register_each_Normal_call[OF r this]
    obtain s' where "fst (component Vue (name (snd e)) (snd e) s') = Normal"
      by (auto simp: entry_call_def)
    with t show False by blast
  qed
  from a b show ?thesis by blast
qed

theorem install_propagates_host_failure_witness:
  "(''InputTextarea'', script, Throw (HostError ''invalid name''))
      \<in> set (call_log (pickyHost ''InputTextarea'') (src_loaded (script_1 :: unit component_def) script []))
   \<and> fst (install (pickyHost ''InputTextarea'') (src_loaded (script_1 :: unit component_def) script [])) =
        Throw (HostError ''invalid name'')
   \<and> distinct (keys (registry (src_loaded (script_1 :: unit component_def) script ([] :: string list))))
   \<and> (''InputTextarea'', script) \<in> set (own (registry (src_loaded (script_1 :: unit component_def) script ([] :: string list))))
   \<and> (\<forall>s. fst (component (pickyHost ''InputTextarea'') ''InputTextarea'' (script :: unit component_def) s) \<noteq> Normal)
   \<and> fst (install (pickyHost ''InputTextarea'') (src_loaded (script_1 :: unit component_def) script [])) \<noteq> Normal"
proof -
  let ?w = "src_loaded (script_1 :: unit component_def) script ([] :: string list)"
  let ?Vue = "pickyHost ''InputTextarea'' :: (string list, string, unit) vue"
  let ?e = "(''InputTextarea'', script :: unit component_def)"
  have h1: "(''InputTextarea'', script, Throw (HostError ''invalid name'')) \<in> set (call_log ?Vue ?w)"
    by (simp add: run_simps pickyHost_def)
  have h2: "distinct (keys (registry ?w))" by (simp add: run_simps)
  have h3: "?e \<in> set (own (registry ?w))" by (simp add: run_simps)
  have h4: "\<forall>s. fst (component ?Vue (name (snd ?e)) (snd ?e) s) \<noteq> Normal"
    by (simp add: pickyHost_def script_def)
  note inst = install_propagates_host_failure[of "''InputTextarea''" script "HostError ''invalid name''" ?Vue ?w ?e]
  from inst h1 have a: "fst (install ?Vue ?w) = Throw (HostError ''invalid name'')" by blast
  from inst h2 h3 h4 have b: "fst (install ?Vue ?w) \<noteq> Normal" by blast
  from h4 have h4': "\<forall>s. fst (component ?Vue ''InputTextarea'' script s) \<noteq> Normal"
    by (simp add: script_def)
  from h1 a h2 h3 h4' b show ?thesis by blast
qed

text \<open>
  C8. When a register call throws in the course of an installation, \<^verbatim>\<open>install\<close> stops
  there: the call is the one for some entry \<open>i\<close> of the registry, the calls for the entries
  before it were made, in order, and returned, no call is made for an entry after it, and
  \<^verbatim>\<open>install\<close> throws what the call threw.
\<close>

theorem install_aborts_at_first_throw:
  assumes "distinct (keys (registry w))"
    and "(n, c, Throw x) \<in> set (call_log Vue w)"
  shows "\<exists>i < length (own (registry w)).
           entry_call (own (registry w) ! i) = (n, c)
         \<and> call_log Vue w =
             map (\<lambda>e. (name (snd e), snd e, Normal)) (take i (own (registry w))) @ [(n, c, Throw x)]
         \<and> fst (install Vue w) = Throw x"
proof -
  let ?R = "registry w"
  from assms(2) have m: "(n, c, Throw x) \<in> set (each_log Vue (attempted ?R) (host_state w))"
    by (simp add: call_log_each)
  then have ne: "attempted ?R \<noteq> []" by auto
  then have plain: "get ?R ''hasOwnProperty'' = None"
    by (cases "get ?R ''hasOwnProperty''") (simp_all add: attempted_def)
  with assms(1) have att: "attempted ?R = map entry_call (own ?R)" by (rule attempted_distinct)
  from each_log_Throw[OF m] obtain i where i: "i < length (attempted ?R)"
    and at: "attempted ?R ! i = (n, c)"
    and log: "each_log Vue (attempted ?R) (host_state w) =
        map (\<lambda>call. (fst call, snd call, Normal)) (take i (attempted ?R)) @ [(n, c, Throw x)]"
    and r: "fst (register_each Vue (attempted ?R) (host_state w)) = Throw x"
    by blast
  from i att have i': "i < length (own ?R)" by simp
  from at att i' have e: "entry_call (own ?R ! i) = (n, c)" by simp
  have "map (\<lambda>call. (fst call, snd call, Normal)) (take i (attempted ?R)) =
        map (\<lambda>e. (name (snd e), snd e, Normal)) (take i (own ?R))"
    by (simp add: att take_map entry_call_def comp_def)
  with log have l: "call_log Vue w =
      map (\<lambda>e. (name (snd e), snd e, Normal)) (take i (own ?R)) @ [(n, c, Throw x)]"
    by (simp add: call_log_each)
  from plain r have "fst (install Vue w) = Throw x" by (simp add: install_completion)
  with i' e l show ?thesis by blast
qed

theorem install_aborts_at_first_throw_witness:
  "distinct (keys (registry (src_loaded (script_1 :: unit component_def) script ([] :: string list))))
   \<and> (''InputText'', script_1, Throw (HostError ''invalid name''))
        \<in> set (call_log (pickyHost ''InputText'') (src_loaded (script_1 :: unit component_def) script []))
   \<and> (\<exists>i < length (own (registry (src_loaded (script_1 :: unit component_def) script ([] :: string list)))).
         entry_call (own (registry (src_loaded (script_1 :: unit component_def) script ([] :: string list))) ! i)
           = (''InputText'', script_1)
       \<and> call_log (pickyHost ''InputText'') (src_loaded (script_1 :: unit component_def) script []) =
           map (\<lambda>e. (name (snd e), snd e, Normal))
             (take i (own (registry (src_loaded (script_1 :: unit component_def) script ([] :: string list)))))
           @ [(''InputText'', script_1, Throw (HostError ''invalid name''))])
   \<and> fst (install (pickyHost ''InputText'') (src_loaded (script_1 :: unit component_def) script [])) =
        Throw (HostError ''invalid name'')
   \<and> call_log (pickyHost ''InputText'') (src_loaded (script_1 :: unit component_def) script []) =
        [(''InputTextarea'', script, Normal), (''InputText'', script_1, Throw (HostError ''invalid name''))]"
proof -
  let ?w = "src_loaded (script_1 :: unit component_def) script ([] :: string list)"
  let ?Vue = "pickyHost ''InputText'' :: (string list, string, unit) vue"
  have h1: "distinct (keys (registry ?w))" by (simp add: run_simps)
  have h2: "(''InputText'', script_1, Throw (HostError ''invalid name'')) \<in> set (call_log ?Vue ?w)"
    by (simp add: run_simps pickyHost_def)
  have v: "call_log ?Vue ?w =
      [(''InputTextarea'', script, Normal), (''InputText'', script_1, Throw (HostError ''invalid name''))]"
    by (simp add: run_simps pickyHost_def)
  from install_aborts_at_first_throw[OF h1 h2] obtain i where
    i: "i < length (own (registry ?w))"
       "entry_call (own (registry ?w) ! i) = (''InputText'', script_1)"
       "call_log ?Vue ?w = map (\<lambda>e. (name (snd e), snd e, Normal)) (take i (own (registry ?w)))
           @ [(''InputText'', script_1, Throw (HostError ''invalid name''))]"
    and t: "fst (install ?Vue ?w) = Throw (HostError ''invalid name'')"
    by blast
  from i have ex: "\<exists>i < length (own (registry ?w)).
         entry_call (own (registry ?w) ! i) = (''InputText'', script_1)
       \<and> call_log ?Vue ?w = map (\<lambda>e. (name (snd e), snd e, Normal)) (take i (own (registry ?w)))
           @ [(''InputText'', script_1, Throw (HostError ''invalid name''))]"
    by blast
  from h1 h2 ex t v show ?thesis by blast
qed

section \<open>Frame, repeated installation, and the two builds\<close>

text \<open>
  C7. Executing \<^verbatim>\<open>install(host)\<close>, for every host and from every state, leaves the
  registry as it was: the same keys with the same definitions, in the source plugin and
  in the bundle. The world after the call differs from the world before in the host's
  state at most, and a normal completion carries no value.
\<close>

theorem install_leaves_registry:
  "registry (snd (install Vue w)) = registry w
   \<and> registry (snd (dist_install Vue w)) = registry w
   \<and> snd (install Vue w) = w\<lparr>host_state := host_state (snd (install Vue w))\<rparr>"
proof -
  have r: "registry (snd (install Vue w)) = registry w"
    by (simp add: install_def install_loop_registry)
  then have "snd (install Vue w) = w\<lparr>host_state := host_state (snd (install Vue w))\<rparr>"
    by (cases w; cases "snd (install Vue w)") simp
  with r show ?thesis by (simp add: dist_install_eq)
qed

text \<open>
  C6, as stated, at a host that rejects a name it already has: the first \<^verbatim>\<open>install\<close>
  registers both components and returns; the second calls register for
  \<^verbatim>\<open>InputTextarea\<close>, which throws, and stops there. It makes one call, not the two of the
  first.
\<close>

theorem second_install_on_strict_host:
  "fst (install strictHost (src_loaded (script_1 :: unit component_def) script [])) = Normal
   \<and> register_calls strictHost (src_loaded (script_1 :: unit component_def) script []) =
        [(''InputTextarea'', script), (''InputText'', script_1)]
   \<and> host_state (snd (install strictHost (src_loaded (script_1 :: unit component_def) script []))) =
        [''InputTextarea'', ''InputText'']
   \<and> register_calls strictHost (snd (install strictHost (src_loaded (script_1 :: unit component_def) script []))) =
        [(''InputTextarea'', script)]
   \<and> register_calls strictHost (snd (install strictHost (src_loaded (script_1 :: unit component_def) script [])))
        \<noteq> register_calls strictHost (src_loaded (script_1 :: unit component_def) script [])
   \<and> fst (install strictHost (snd (install strictHost (src_loaded (script_1 :: unit component_def) script [])))) =
        Throw (HostError ''already registered'')"
  by (simp add: run_simps strictHost_def)

text \<open>
  C6. The installer keeps no state of its own: an installation leaves the registry as it
  was. For every host (acting on its own state) a second \<^verbatim>\<open>install(host)\<close> sets out to
  make the calls the first set out to make, and makes them in order from the state the
  first installation left, each call on the state the call before it left, up to and
  including the first call that throws. For a registry with no property named
  \<^verbatim>\<open>hasOwnProperty\<close> these are the calls of the own entries, with the declared names and the
  definitions: either every call returns, the second installation returns normally and
  has made the full set of calls, one for each entry, or the call for some entry \<open>i\<close>
  throws, the calls made are those of the entries before \<open>i\<close>, which returned, and that
  one, and the installation throws what it threw. When both installations return normally
  the second has made the same calls as the first.
\<close>

theorem second_install_repeats_calls:
  assumes "distinct (keys (registry w))"
  shows "registry (snd (install Vue w)) = registry w
     \<and> call_log Vue w = each_log Vue (attempted (registry w)) (host_state w)
     \<and> call_log Vue (snd (install Vue w)) =
          each_log Vue (attempted (registry w)) (host_state (snd (install Vue w)))
     \<and> (get (registry w) ''hasOwnProperty'' = None \<longrightarrow>
          attempted (registry w) = map entry_call (own (registry w))
          \<and> ((fst (install Vue (snd (install Vue w))) = Normal
                \<and> call_log Vue (snd (install Vue w)) =
                    map (\<lambda>e. (name (snd e), snd e, Normal)) (own (registry w)))
              \<or> (\<exists>i x. i < length (own (registry w))
                    \<and> fst (install Vue (snd (install Vue w))) = Throw x
                    \<and> call_log Vue (snd (install Vue w)) =
                        map (\<lambda>e. (name (snd e), snd e, Normal)) (take i (own (registry w)))
                          @ [(name (snd (own (registry w) ! i)), snd (own (registry w) ! i), Throw x)])))
     \<and> register_calls Vue (snd (install Vue w)) =
          take (length (register_calls Vue (snd (install Vue w)))) (map entry_call (own (registry w)))
     \<and> (fst (install Vue (snd (install Vue w))) = Normal \<longrightarrow>
          register_calls Vue (snd (install Vue w)) = map entry_call (own (registry w)))
     \<and> (fst (install Vue w) = Normal \<and> fst (install Vue (snd (install Vue w))) = Normal \<longrightarrow>
          register_calls Vue (snd (install Vue w)) = register_calls Vue w)"
proof -
  let ?w1 = "snd (install Vue w)"
  let ?R = "registry w"
  have reg: "registry ?w1 = ?R" by (simp add: install_def install_loop_registry)
  with assms have d1: "distinct (keys (registry ?w1))" by simp
  have log0: "call_log Vue w = each_log Vue (attempted ?R) (host_state w)" by (rule call_log_each)
  have log1: "call_log Vue ?w1 = each_log Vue (attempted ?R) (host_state ?w1)"
    using call_log_each[of Vue ?w1] by (simp add: reg)
  have exact: "attempted ?R = map entry_call (own ?R)
      \<and> ((fst (install Vue ?w1) = Normal
            \<and> call_log Vue ?w1 = map (\<lambda>e. (name (snd e), snd e, Normal)) (own ?R))
          \<or> (\<exists>i x. i < length (own ?R)
                \<and> fst (install Vue ?w1) = Throw x
                \<and> call_log Vue ?w1 =
                    map (\<lambda>e. (name (snd e), snd e, Normal)) (take i (own ?R))
                      @ [(name (snd (own ?R ! i)), snd (own ?R ! i), Throw x)]))"
    if plain: "get ?R ''hasOwnProperty'' = None"
  proof -
    from assms plain have att: "attempted ?R = map entry_call (own ?R)" by (rule attempted_distinct)
    from plain reg have "get (registry ?w1) ''hasOwnProperty'' = None" by simp
    then have compl: "fst (install Vue ?w1) = fst (register_each Vue (attempted ?R) (host_state ?w1))"
      by (simp add: install_completion reg)
    have m: "map (\<lambda>call. (fst call, snd call, Normal)) (take i (map entry_call (own ?R))) =
        map (\<lambda>e. (name (snd e), snd e, Normal)) (take i (own ?R))" for i
      by (simp add: take_map entry_call_def comp_def)
    have m': "map (\<lambda>call. (fst call, snd call, Normal)) (map entry_call (own ?R)) =
        map (\<lambda>e. (name (snd e), snd e, Normal)) (own ?R)"
      by (simp add: entry_call_def comp_def)
    from each_log_cases[of Vue "attempted ?R" "host_state ?w1"]
    show ?thesis
    proof
      assume "fst (register_each Vue (attempted ?R) (host_state ?w1)) = Normal \<and>
        each_log Vue (attempted ?R) (host_state ?w1) =
          map (\<lambda>call. (fst call, snd call, Normal)) (attempted ?R)"
      then have "fst (install Vue ?w1) = Normal
          \<and> call_log Vue ?w1 = map (\<lambda>e. (name (snd e), snd e, Normal)) (own ?R)"
        using compl log1 att m' by simp
      with att show ?thesis by blast
    next
      assume "\<exists>i x. i < length (attempted ?R) \<and>
          fst (register_each Vue (attempted ?R) (host_state ?w1)) = Throw x \<and>
          each_log Vue (attempted ?R) (host_state ?w1) =
            map (\<lambda>call. (fst call, snd call, Normal)) (take i (attempted ?R))
              @ [(fst (attempted ?R ! i), snd (attempted ?R ! i), Throw x)]"
      then obtain i x where i: "i < length (attempted ?R)"
        and t: "fst (register_each Vue (attempted ?R) (host_state ?w1)) = Throw x"
        and l: "each_log Vue (attempted ?R) (host_state ?w1) =
            map (\<lambda>call. (fst call, snd call, Normal)) (take i (attempted ?R))
              @ [(fst (attempted ?R ! i), snd (attempted ?R ! i), Throw x)]"
        by blast
      from i att have i': "i < length (own ?R)" by simp
      from att i' have at: "attempted ?R ! i = (name (snd (own ?R ! i)), snd (own ?R ! i))"
        by (simp add: entry_call_def)
      have "call_log Vue ?w1 =
          map (\<lambda>e. (name (snd e), snd e, Normal)) (take i (own ?R))
            @ [(name (snd (own ?R ! i)), snd (own ?R ! i), Throw x)]"
        using log1 l at m[of i] att by simp
      moreover have "fst (install Vue ?w1) = Throw x" using compl t by simp
      ultimately show ?thesis using att i' by blast
    qed
  qed
  have pre: "register_calls Vue ?w1 =
      take (length (register_calls Vue ?w1)) (map entry_call (own ?R))"
  proof (cases "attempted (registry ?w1) = []")
    case True
    with register_calls_length[of Vue ?w1] show ?thesis by simp
  next
    case False
    with attempted_cases[OF d1] have "attempted (registry ?w1) = map entry_call (own ?R)"
      by (simp add: reg)
    with register_calls_take[of Vue ?w1] show ?thesis by simp
  qed
  have full: "register_calls Vue v = map entry_call (own ?R)"
    if "fst (install Vue v) = Normal" and "registry v = ?R" for v
    using register_calls_Normal[OF that(1)] that(2) assms by (simp add: attempted_distinct)
  have second: "register_calls Vue ?w1 = map entry_call (own ?R)"
    if "fst (install Vue ?w1) = Normal"
    using that reg by (rule full)
  have both: "register_calls Vue ?w1 = register_calls Vue w"
    if "fst (install Vue w) = Normal" and "fst (install Vue ?w1) = Normal"
    using second[OF that(2)] full[OF that(1)] by simp
  from reg log0 log1 exact pre second both show ?thesis by blast
qed

text \<open>
  C6 on the host that rejects a name it already has, where the second installation makes
  the one call that throws, and on the mock, where both installations return.
\<close>

theorem second_install_repeats_calls_witness:
  "distinct (keys (registry (src_loaded (script_1 :: unit component_def) script ([] :: string list))))
   \<and> get (registry (src_loaded (script_1 :: unit component_def) script ([] :: string list))) ''hasOwnProperty'' = None
   \<and> call_log strictHost (snd (install strictHost (src_loaded (script_1 :: unit component_def) script []))) =
        [(''InputTextarea'', script, Throw (HostError ''already registered''))]
   \<and> fst (install strictHost (snd (install strictHost (src_loaded (script_1 :: unit component_def) script [])))) =
        Throw (HostError ''already registered'')
   \<and> distinct (keys (registry (src_loaded (script_1 :: unit component_def) script ([] :: (string \<times> unit component_def) list))))
   \<and> fst (install (hostMock :: (_, unit, unit) vue) (src_loaded script_1 script [])) = Normal
   \<and> fst (install (hostMock :: (_, unit, unit) vue)
        (snd (install (hostMock :: (_, unit, unit) vue) (src_loaded script_1 script [])))) = Normal
   \<and> registry (snd (install (hostMock :: (_, unit, unit) vue) (src_loaded script_1 script []))) =
        registry (src_loaded (script_1 :: unit component_def) script ([] :: (string \<times> unit component_def) list))
   \<and> call_log (hostMock :: (_, unit, unit) vue)
        (snd (install (hostMock :: (_, unit, unit) vue) (src_loaded script_1 script []))) =
        [(''InputTextarea'', script, Normal), (''InputText'', script_1, Normal)]
   \<and> register_calls (hostMock :: (_, unit, unit) vue)
        (snd (install (hostMock :: (_, unit, unit) vue) (src_loaded script_1 script []))) =
        register_calls (hostMock :: (_, unit, unit) vue) (src_loaded script_1 script [])"
proof -
  let ?v = "src_loaded (script_1 :: unit component_def) script ([] :: string list)"
  let ?Strict = "strictHost :: (string list, string, unit) vue"
  let ?w = "src_loaded (script_1 :: unit component_def) script ([] :: (string \<times> unit component_def) list)"
  let ?Mock = "hostMock :: (_, unit, unit) vue"
  have s1: "distinct (keys (registry ?v))" by (simp add: run_simps)
  have s2: "get (registry ?v) ''hasOwnProperty'' = None" by (simp add: run_simps)
  have att: "attempted (registry ?v) = [(''InputTextarea'', script), (''InputText'', script_1)]"
    by (simp add: attempted_def loop_calls_def run_simps)
  have st: "host_state (snd (install ?Strict ?v)) = [''InputTextarea'', ''InputText'']"
    by (simp add: run_simps strictHost_def)
  note strict = second_install_repeats_calls[OF s1, of ?Strict]
  from strict have "call_log ?Strict (snd (install ?Strict ?v)) =
      each_log ?Strict (attempted (registry ?v)) (host_state (snd (install ?Strict ?v)))"
    by blast
  then have s3: "call_log ?Strict (snd (install ?Strict ?v)) =
      [(''InputTextarea'', script, Throw (HostError ''already registered''))]"
    unfolding att st by (simp add: strictHost_def)
  from strict s2 have "(fst (install ?Strict (snd (install ?Strict ?v))) = Normal
        \<and> call_log ?Strict (snd (install ?Strict ?v)) =
            map (\<lambda>e. (name (snd e), snd e, Normal)) (own (registry ?v)))
      \<or> (\<exists>i x. i < length (own (registry ?v))
            \<and> fst (install ?Strict (snd (install ?Strict ?v))) = Throw x
            \<and> call_log ?Strict (snd (install ?Strict ?v)) =
                map (\<lambda>e. (name (snd e), snd e, Normal)) (take i (own (registry ?v)))
                  @ [(name (snd (own (registry ?v) ! i)), snd (own (registry ?v) ! i), Throw x)])"
    by blast
  then have s4: "fst (install ?Strict (snd (install ?Strict ?v))) = Throw (HostError ''already registered'')"
  proof
    assume "fst (install ?Strict (snd (install ?Strict ?v))) = Normal
        \<and> call_log ?Strict (snd (install ?Strict ?v)) =
            map (\<lambda>e. (name (snd e), snd e, Normal)) (own (registry ?v))"
    then have "length (call_log ?Strict (snd (install ?Strict ?v))) = length (own (registry ?v))"
      by simp
    then show ?thesis unfolding s3 by (simp add: run_simps)
  next
    assume "\<exists>i x. i < length (own (registry ?v))
            \<and> fst (install ?Strict (snd (install ?Strict ?v))) = Throw x
            \<and> call_log ?Strict (snd (install ?Strict ?v)) =
                map (\<lambda>e. (name (snd e), snd e, Normal)) (take i (own (registry ?v)))
                  @ [(name (snd (own (registry ?v) ! i)), snd (own (registry ?v) ! i), Throw x)]"
    then obtain i x where t: "fst (install ?Strict (snd (install ?Strict ?v))) = Throw x"
      and l: "call_log ?Strict (snd (install ?Strict ?v)) =
                map (\<lambda>e. (name (snd e), snd e, Normal)) (take i (own (registry ?v)))
                  @ [(name (snd (own (registry ?v) ! i)), snd (own (registry ?v) ! i), Throw x)]"
      by blast
    from l have "last (call_log ?Strict (snd (install ?Strict ?v))) =
        (name (snd (own (registry ?v) ! i)), snd (own (registry ?v) ! i), Throw x)"
      by simp
    then have "x = HostError ''already registered''" unfolding s3 by simp
    with t show ?thesis by simp
  qed
  have h1: "distinct (keys (registry ?w))" by (simp add: run_simps)
  have h2: "fst (install ?Mock ?w) = Normal" by (simp add: run_simps hostMock_def)
  have h3: "fst (install ?Mock (snd (install ?Mock ?w))) = Normal" by (simp add: run_simps hostMock_def)
  have mst: "host_state (snd (install ?Mock ?w)) = [(''InputTextarea'', script), (''InputText'', script_1)]"
    by (simp add: run_simps hostMock_def)
  have matt: "attempted (registry ?w) = [(''InputTextarea'', script), (''InputText'', script_1)]"
    by (simp add: attempted_def loop_calls_def run_simps)
  note mock = second_install_repeats_calls[OF h1, of ?Mock]
  from mock have a: "registry (snd (install ?Mock ?w)) = registry ?w" by blast
  from mock have "call_log ?Mock (snd (install ?Mock ?w)) =
      each_log ?Mock (attempted (registry ?w)) (host_state (snd (install ?Mock ?w)))"
    by blast
  then have b: "call_log ?Mock (snd (install ?Mock ?w)) =
      [(''InputTextarea'', script, Normal), (''InputText'', script_1, Normal)]"
    unfolding matt mst by (simp add: hostMock_def)
  from mock h2 h3 have c: "register_calls ?Mock (snd (install ?Mock ?w)) = register_calls ?Mock ?w"
    by blast
  show ?thesis
    by (intro conjI) (fact s1 s2 s3 s4 h1 h2 h3 a b c)+
qed

text \<open>
  C10. The bundle's plugin and the source plugin do the same: the two \<^verbatim>\<open>install\<close>
  functions agree on every host and every world, the bundle loads with the registry that
  \<^verbatim>\<open>components.js\<close> exports over the two built components, and so for every host and
  every state of it the two installations complete alike, leave the same state and make
  the same register calls, with the same names and definitions, in the same order and
  with the same completions.
\<close>

theorem dist_install_equals_source_install:
  "dist_install Vue w = install Vue w
   \<and> dist_loaded s = src_loaded script_1 script s
   \<and> dist_install Vue (dist_loaded s) = install Vue (src_loaded script_1 script s)
   \<and> dist_call_log Vue (dist_loaded s) = call_log Vue (src_loaded script_1 script s)
   \<and> dist_register_calls Vue (dist_loaded s) = register_calls Vue (src_loaded script_1 script s)"
proof -
  have w: "dist_loaded s = src_loaded script_1 script s" for s :: "'x"
    by (simp add: dist_loaded_def src_loaded_def components_def components_js_def)
  show ?thesis
    by (simp add: w dist_install_eq dist_call_log_def call_log_def
          dist_register_calls_def register_calls_def)
qed

end
